theory Spec2Isabelle
  imports Main "HOL-Library.Word"
begin

section \<open>Outbound message splitting of the WhatsApp bridge (server.js)\<close>

text \<open>
  The development embeds \<^verbatim>\<open>sendSplitMessage\<close> of \<^verbatim>\<open>src/server.js\<close> (lines 237 to 296),
  together with the two helpers it calls, \<^verbatim>\<open>sendWhatsAppMessage\<close> (lines 196 to 222) and
  \<^verbatim>\<open>delay\<close> (lines 225 to 227). The file also holds, after line 303, an earlier revision
  of the same server; the revision modelled here is the first one.

  Console output (\<^verbatim>\<open>console.log\<close>, \<^verbatim>\<open>console.warn\<close>, \<^verbatim>\<open>console.error\<close>) has no
  influence on control flow and is left out of the model. Every other effect, that is
  every HTTP send and every timer wait, is recorded in a trace.
\<close>

subsection \<open>JavaScript values and strings\<close>

text \<open>
  A JavaScript string is a sequence of 16-bit code units, and \<^verbatim>\<open>.length\<close> counts code
  units. ECMAScript allows at most \<open>2^53 - 1\<close> code units in a string.
\<close>

type_synonym code_unit = "16 word"
type_synonym js_string = "code_unit list"

definition js_max_string_length :: nat where
  "js_max_string_length = 2 ^ 53 - 1"

text \<open>A string literal of the source, whose characters are all ASCII.\<close>

definition js_lit :: "string \<Rightarrow> js_string" where
  "js_lit s = map of_char s"

text \<open>
  The values \<^verbatim>\<open>longText\<close> can hold. Numbers are represented by integers only, objects
  (arrays and functions included) by one constructor: the guard of
  \<^verbatim>\<open>sendSplitMessage\<close> inspects nothing of a value that is not a string.
\<close>

datatype js_value =
    JUndefined
  | JNull
  | JBoolean bool
  | JNumber int
  | JString js_string
  | JObject

text \<open>The type tag that \<^verbatim>\<open>typeof\<close> returns.\<close>

datatype js_type = TUndefined | TObject | TBoolean | TNumber | TString

fun typeof :: "js_value \<Rightarrow> js_type" where
  "typeof JUndefined = TUndefined"
| "typeof JNull = TObject"
| "typeof (JBoolean b) = TBoolean"
| "typeof (JNumber n) = TNumber"
| "typeof (JString s) = TString"
| "typeof JObject = TObject"

text \<open>\<^verbatim>\<open>ToBoolean\<close>, which \<^verbatim>\<open>!longText\<close> negates.\<close>

fun to_boolean :: "js_value \<Rightarrow> bool" where
  "to_boolean JUndefined = False"
| "to_boolean JNull = False"
| "to_boolean (JBoolean b) = b"
| "to_boolean (JNumber n) = (n \<noteq> 0)"
| "to_boolean (JString s) = (s \<noteq> [])"
| "to_boolean JObject = True"

text \<open>
  The code units that \<^verbatim>\<open>String.prototype.trim\<close> strips: ECMAScript's WhiteSpace
  (TAB, VT, FF, SP, NBSP, ZWNBSP and the category Zs) and LineTerminator
  (LF, CR, LS, PS).
\<close>

definition is_whitespace :: "code_unit \<Rightarrow> bool" where
  "is_whitespace c \<longleftrightarrow>
     c = 0x0009 \<or> c = 0x000A \<or> c = 0x000B \<or> c = 0x000C \<or> c = 0x000D \<or>
     c = 0x0020 \<or> c = 0x00A0 \<or> c = 0x1680 \<or> (0x2000 \<le> c \<and> c \<le> 0x200A) \<or>
     c = 0x2028 \<or> c = 0x2029 \<or> c = 0x202F \<or> c = 0x205F \<or> c = 0x3000 \<or>
     c = 0xFEFF"

definition trim :: "js_string \<Rightarrow> js_string" where
  "trim s = rev (dropWhile is_whitespace (rev (dropWhile is_whitespace s)))"

text \<open>
  \<^verbatim>\<open>s.substring(a, b)\<close> for non-negative integer arguments: both are clamped to the
  length of the string and swapped when the first is the larger.
\<close>

definition substring :: "js_string \<Rightarrow> nat \<Rightarrow> nat \<Rightarrow> js_string" where
  "substring s a b =
     (let a' = min a (length s); b' = min b (length s);
          from = min a' b'; upto = max a' b'
      in take (upto - from) (drop from s))"

text \<open>
  The decimal rendering of a non-negative integer, as a template literal renders a
  number. (A JavaScript number prints this way below \<open>10^21\<close>; the numbers rendered here
  are a chunk index and a chunk count, both at most the length of a string.)
\<close>

definition digit :: "nat \<Rightarrow> code_unit" where
  "digit d = of_nat (48 + d)"

fun show_nat :: "nat \<Rightarrow> js_string" where
  "show_nat n = (if n < 10 then [digit n] else show_nat (n div 10) @ [digit (n mod 10)])"

declare show_nat.simps [simp del]

subsection \<open>The world: the network and the trace of effects\<close>

text \<open>
  The only way the outside world acts on \<^verbatim>\<open>sendSplitMessage\<close> is by letting an HTTP
  request succeed or fail. The network is a parameter \<open>net\<close>: the request that is the
  \<open>k\<close>-th one attempted (counting from 0) succeeds iff \<open>net k\<close>. The world records how
  many requests were attempted and, in order, every effect.
\<close>

datatype event =
    Send js_string js_string bool
  | Delay nat

record world =
  attempts :: nat
  trace :: "event list"

definition world0 :: world where
  "world0 = \<lparr>attempts = 0, trace = []\<rparr>"

datatype error = AxiosError | TypeError

type_synonym 'a result = "(error + 'a) \<times> world"

text \<open>
  \<^verbatim>\<open>sendWhatsAppMessage\<close>: one POST to the Graph API; on failure the error is logged and
  thrown again (line 220).
\<close>

definition sendWhatsAppMessage :: "(nat \<Rightarrow> bool) \<Rightarrow> js_string \<Rightarrow> js_string \<Rightarrow> world \<Rightarrow> unit result" where
  "sendWhatsAppMessage net to text w =
     (let ok = net (attempts w);
          w' = \<lparr>attempts = Suc (attempts w), trace = trace w @ [Send to text ok]\<rparr>
      in (if ok then Inr () else Inl AxiosError, w'))"

text \<open>\<^verbatim>\<open>delay\<close>: a promise resolved by a timer after \<open>ms\<close> milliseconds.\<close>

definition delay :: "nat \<Rightarrow> world \<Rightarrow> world" where
  "delay ms w = w\<lparr>trace := trace w @ [Delay ms]\<rparr>"

subsection \<open>sendSplitMessage\<close>

definition MAX_LENGTH :: nat where
  "MAX_LENGTH = 4096"

definition PREFIX_RESERVATION :: nat where
  "PREFIX_RESERVATION = 20"

definition CHUNK_SIZE :: nat where
  "CHUNK_SIZE = MAX_LENGTH - PREFIX_RESERVATION"

text \<open>The splitting loop of lines 254 to 257, with its counter and its array.\<close>

function split_loop :: "js_string \<Rightarrow> nat \<Rightarrow> js_string list \<Rightarrow> js_string list" where
  "split_loop longText i chunks =
     (if i < length longText
      then split_loop longText (i + CHUNK_SIZE) (chunks @ [substring longText i (i + CHUNK_SIZE)])
      else chunks)"
  by pat_completeness auto
termination
  by (relation "measure (\<lambda>(longText, i, chunks). length longText - i)")
     (auto simp: CHUNK_SIZE_def MAX_LENGTH_def PREFIX_RESERVATION_def)

declare split_loop.simps [simp del]

definition split_chunks :: "js_string \<Rightarrow> js_string list" where
  "split_chunks longText = split_loop longText 0 []"

text \<open>The template literal of line 265, for the 0-based loop counter \<open>i\<close>.\<close>

definition messagePart :: "js_string list \<Rightarrow> nat \<Rightarrow> js_string" where
  "messagePart chunks i =
     js_lit ''('' @ show_nat (i + 1) @ js_lit ''/'' @ show_nat (length chunks) @ js_lit '') ''
       @ chunks ! i"

definition notice :: js_string where
  "notice = js_lit
     ''Sorry, I encountered an issue while sending your multi-part message and couldn't send all of it.''"

text \<open>
  The sending loop of lines 262 to 296. A send that throws inside the \<^verbatim>\<open>try\<close> block ends
  the function by \<^verbatim>\<open>return\<close>; the truncated send of line 275 stands outside the
  \<^verbatim>\<open>try\<close> block, so there a throw leaves the function, and \<^verbatim>\<open>continue\<close> skips the
  delay.
\<close>

function send_loop ::
  "(nat \<Rightarrow> bool) \<Rightarrow> js_string \<Rightarrow> nat \<Rightarrow> js_string list \<Rightarrow> nat \<Rightarrow> world \<Rightarrow> unit result" where
  "send_loop net to delayBetweenMessages chunks i w =
     (if i < length chunks then
        if length (messagePart chunks i) > MAX_LENGTH then
          (case sendWhatsAppMessage net to
                  (substring (messagePart chunks i) 0 (MAX_LENGTH - 3) @ js_lit ''...'') w of
             (Inl e, w') \<Rightarrow> (Inl e, w')
           | (Inr u, w') \<Rightarrow> send_loop net to delayBetweenMessages chunks (i + 1) w')
        else
          (case sendWhatsAppMessage net to (messagePart chunks i) w of
             (Inr u, w') \<Rightarrow>
               send_loop net to delayBetweenMessages chunks (i + 1)
                 (if i < length chunks - 1 then delay delayBetweenMessages w' else w')
           | (Inl e, w') \<Rightarrow>
               (Inr (),
                if i = 0 then snd (sendWhatsAppMessage net to notice w') else w'))
      else (Inr (), w))"
  by pat_completeness auto
termination
  by (relation "measure (\<lambda>(net, to, d, chunks, i, w). length chunks - i)") auto

declare send_loop.simps [simp del]

text \<open>
  The guard of line 242, \<^verbatim>\<open>!longText || typeof longText !== 'string' || longText.trim() === ""\<close>,
  evaluated left to right with short-circuit. Calling \<^verbatim>\<open>trim\<close> on a value that is not a
  string would throw a TypeError.
\<close>

definition rejects :: "js_value \<Rightarrow> error + bool" where
  "rejects longText =
     (if \<not> to_boolean longText then Inr True
      else if typeof longText \<noteq> TString then Inr True
      else case longText of
             JString s \<Rightarrow> Inr (trim s = [])
           | _ \<Rightarrow> Inl TypeError)"

text \<open>
  \<^verbatim>\<open>sendSplitMessage(to, longText, delayBetweenMessages = 1500)\<close>; the third argument is
  \<open>None\<close> when the caller leaves it out, as every call in the file does.
\<close>

definition sendSplitMessage ::
  "(nat \<Rightarrow> bool) \<Rightarrow> js_string \<Rightarrow> js_value \<Rightarrow> nat option \<Rightarrow> world \<Rightarrow> unit result" where
  "sendSplitMessage net to longText delayArg w =
     (let delayBetweenMessages = (case delayArg of None \<Rightarrow> 1500 | Some ms \<Rightarrow> ms)
      in case rejects longText of
           Inl e \<Rightarrow> (Inl e, w)
         | Inr True \<Rightarrow> (Inr (), w)
         | Inr False \<Rightarrow>
             (case longText of
                JString s \<Rightarrow>
                  if length s \<le> MAX_LENGTH then sendWhatsAppMessage net to s w
                  else send_loop net to delayBetweenMessages (split_chunks s) 0 w
              | _ \<Rightarrow> (Inl TypeError, w)))"

subsection \<open>Observations on a run\<close>

text \<open>The payloads handed to \<^verbatim>\<open>sendWhatsAppMessage\<close>, in the order of the calls.\<close>

fun sent_payloads :: "event list \<Rightarrow> js_string list" where
  "sent_payloads [] = []"
| "sent_payloads (Send to text ok # es) = text # sent_payloads es"
| "sent_payloads (Delay ms # es) = sent_payloads es"

text \<open>
  Chunk \<open>i\<close> (0-based) is oversized when its rendered part fails the check of line 269;
  \<open>payload\<close> is what the loop then hands to the send primitive for that chunk.
\<close>

definition oversized :: "js_string list \<Rightarrow> nat \<Rightarrow> bool" where
  "oversized chunks i \<longleftrightarrow> MAX_LENGTH < length (messagePart chunks i)"

definition payload :: "js_string list \<Rightarrow> nat \<Rightarrow> js_string" where
  "payload chunks i =
     (if oversized chunks i
      then substring (messagePart chunks i) 0 (MAX_LENGTH - 3) @ js_lit ''...''
      else messagePart chunks i)"

text \<open>
  The effects of one round of the loop whose send succeeds, and the effects of the round
  whose send fails.
\<close>

definition round_events :: "js_string \<Rightarrow> nat \<Rightarrow> js_string list \<Rightarrow> nat \<Rightarrow> event list" where
  "round_events to ms chunks i =
     Send to (payload chunks i) True #
       (if \<not> oversized chunks i \<and> i < length chunks - 1 then [Delay ms] else [])"

definition failure_events :: "(nat \<Rightarrow> bool) \<Rightarrow> js_string \<Rightarrow> js_string list \<Rightarrow> nat \<Rightarrow> event list" where
  "failure_events net to chunks k =
     Send to (payload chunks k) False #
       (if \<not> oversized chunks k \<and> k = 0 then [Send to notice (net 1)] else [])"

text \<open>
  The size invariant of a plan as the specification words it: the body of every chunk
  together with its rendered prefix fits the limit.
\<close>

definition plan_fits :: "js_string list \<Rightarrow> bool" where
  "plan_fits bodies = list_all (\<lambda>i. length (messagePart bodies i) \<le> MAX_LENGTH) [0..<length bodies]"

text \<open>Networks, a recipient and texts for concrete runs.\<close>

definition always_ok :: "nat \<Rightarrow> bool" where
  "always_ok k = True"

definition never_ok :: "nat \<Rightarrow> bool" where
  "never_ok k = False"

definition fail_at :: "nat \<Rightarrow> nat \<Rightarrow> bool" where
  "fail_at m k \<longleftrightarrow> k \<noteq> m"

definition someone :: js_string where
  "someone = js_lit ''15551234567''"

definition letters :: "char \<Rightarrow> nat \<Rightarrow> js_string" where
  "letters c n = replicate n (of_char c)"

section \<open>Properties of the helpers\<close>

subsection \<open>Splitting\<close>

lemmas limits = MAX_LENGTH_def PREFIX_RESERVATION_def CHUNK_SIZE_def

lemma CHUNK_SIZE_pos: "0 < CHUNK_SIZE"
  by (simp add: limits)

lemma substring_window: "substring s a (a + c) = take c (drop a s)"
  by (auto simp: substring_def Let_def min_def max_def)

lemma substring_prefix: "substring s 0 b = take b s"
  by (auto simp: substring_def Let_def min_def)

lemma div_add_divisor: "0 < c \<Longrightarrow> (m + c) div c = Suc (m div c)" for c m :: nat
  by (simp add: div_add_self2)

lemma ceil_div_step:
  fixes c :: nat
  assumes "i < n" "0 < c"
  shows "(n - i + (c - 1)) div c = Suc ((n - (i + c) + (c - 1)) div c)"
proof (cases "n - i < c")
  case True
  have "n - i + (c - 1) = (n - i - 1) + c"
    using True assms by linarith
  then have "(n - i + (c - 1)) div c = Suc ((n - i - 1) div c)"
    using assms(2) by (simp only: div_add_divisor)
  also have "(n - i - 1) div c = 0"
    using True assms by simp
  also have "0 = (n - (i + c) + (c - 1)) div c"
    using True assms by simp
  finally show ?thesis .
next
  case False
  then have "n - i + (c - 1) = (n - (i + c) + (c - 1)) + c"
    by linarith
  then show ?thesis
    using assms(2) by (simp only: div_add_divisor)
qed

lemma split_loop_closed:
  "split_loop s i acc =
     acc @ map (\<lambda>j. take CHUNK_SIZE (drop (i + j * CHUNK_SIZE) s))
             [0..<(length s - i + (CHUNK_SIZE - 1)) div CHUNK_SIZE]"
proof (induction s i acc rule: split_loop.induct)
  case (1 s i acc)
  let ?f = "\<lambda>i j. take CHUNK_SIZE (drop (i + j * CHUNK_SIZE) s)"
  let ?m = "\<lambda>i. (length s - i + (CHUNK_SIZE - 1)) div CHUNK_SIZE"
  show ?case
  proof (cases "i < length s")
    case True
    have "split_loop s i acc = split_loop s (i + CHUNK_SIZE) (acc @ [take CHUNK_SIZE (drop i s)])"
      using True by (subst split_loop.simps) (simp add: substring_window)
    also have "\<dots> = (acc @ [take CHUNK_SIZE (drop i s)]) @ map (?f (i + CHUNK_SIZE)) [0..<?m (i + CHUNK_SIZE)]"
      using 1 True by (simp only: substring_window)
    also have "\<dots> = acc @ ?f i 0 # map (\<lambda>j. ?f i (Suc j)) [0..<?m (i + CHUNK_SIZE)]"
      by (simp add: add.assoc)
    also have "\<dots> = acc @ map (?f i) [0..<Suc (?m (i + CHUNK_SIZE))]"
      by (simp only: map_upt_Suc)
    also have "Suc (?m (i + CHUNK_SIZE)) = ?m i"
      by (rule ceil_div_step [OF True CHUNK_SIZE_pos, symmetric])
    finally show ?thesis .
  next
    case False
    then have "length s - i + (CHUNK_SIZE - 1) < CHUNK_SIZE"
      using CHUNK_SIZE_pos by simp
    with False show ?thesis
      by (subst split_loop.simps) simp
  qed
qed

lemma split_chunks_closed:
  "split_chunks s =
     map (\<lambda>j. take CHUNK_SIZE (drop (j * CHUNK_SIZE) s))
       [0..<(length s + (CHUNK_SIZE - 1)) div CHUNK_SIZE]"
  by (simp add: split_chunks_def split_loop_closed)

lemma length_split_chunks:
  "length (split_chunks s) = (length s + (CHUNK_SIZE - 1)) div CHUNK_SIZE"
  by (simp add: split_chunks_closed)

lemma nth_split_chunks:
  "j < length (split_chunks s) \<Longrightarrow> split_chunks s ! j = take CHUNK_SIZE (drop (j * CHUNK_SIZE) s)"
  by (simp add: split_chunks_closed)

lemma concat_split_loop: "concat (split_loop s i acc) = concat acc @ drop i s"
proof (induction s i acc rule: split_loop.induct)
  case (1 s i acc)
  show ?case
  proof (cases "i < length s")
    case True
    have "drop (i + CHUNK_SIZE) s = drop CHUNK_SIZE (drop i s)"
      by (simp add: add.commute)
    with True 1 show ?thesis
      by (subst split_loop.simps) (simp add: substring_window del: drop_drop)
  next
    case False
    then show ?thesis
      by (subst split_loop.simps) simp
  qed
qed

lemma concat_split_chunks: "concat (split_chunks s) = s"
  by (simp add: split_chunks_def concat_split_loop)

lemma length_chunk_le: "b \<in> set (split_chunks s) \<Longrightarrow> length b \<le> CHUNK_SIZE"
  by (auto simp: split_chunks_closed)

lemma length_concat_le:
  "(\<forall>b \<in> set bs. length b \<le> m) \<Longrightarrow> length (concat bs) \<le> length bs * m"
  by (induction bs) auto

lemma chunk_count_least:
  assumes "length s \<le> m * CHUNK_SIZE"
  shows "length (split_chunks s) \<le> m"
proof -
  have "length s + (CHUNK_SIZE - 1) < (m + 1) * CHUNK_SIZE"
    using assms CHUNK_SIZE_pos by simp
  then have "(length s + (CHUNK_SIZE - 1)) div CHUNK_SIZE < m + 1"
    using CHUNK_SIZE_pos by (simp only: less_mult_imp_div_less)
  then show ?thesis by (simp add: length_split_chunks)
qed

lemma chunk_count_covers: "length s \<le> length (split_chunks s) * CHUNK_SIZE"
proof -
  have "length (concat (split_chunks s)) \<le> length (split_chunks s) * CHUNK_SIZE"
    by (rule length_concat_le) (simp add: length_chunk_le)
  then show ?thesis by (simp add: concat_split_chunks)
qed

lemma chunk_count_tight:
  assumes "m * CHUNK_SIZE < length s"
  shows "m < length (split_chunks s)"
proof (rule ccontr)
  assume "\<not> m < length (split_chunks s)"
  then have "length (split_chunks s) * CHUNK_SIZE \<le> m * CHUNK_SIZE"
    by simp
  with chunk_count_covers [of s] assms show False by linarith
qed

subsection \<open>The sending loop\<close>

lemma send_loop_done:
  "\<not> i < length chunks \<Longrightarrow> send_loop net to ms chunks i w = (Inr (), w)"
  by (subst send_loop.simps) simp

lemma send_loop_round:
  assumes "i < length chunks" "net (attempts w)"
  shows "send_loop net to ms chunks i w =
           send_loop net to ms chunks (Suc i)
             \<lparr>attempts = Suc (attempts w), trace = trace w @ round_events to ms chunks i\<rparr>"
  using assms
  by (subst send_loop.simps)
     (simp add: sendWhatsAppMessage_def delay_def round_events_def payload_def oversized_def)

lemma send_loop_failure:
  assumes "i < length chunks" "\<not> net (attempts w)"
  shows "send_loop net to ms chunks i w =
           (if oversized chunks i then Inl AxiosError else Inr (),
            \<lparr>attempts = (if \<not> oversized chunks i \<and> i = 0 then attempts w + 2 else attempts w + 1),
             trace = trace w @ Send to (payload chunks i) False #
               (if \<not> oversized chunks i \<and> i = 0 then [Send to notice (net (Suc (attempts w)))] else [])\<rparr>)"
  using assms
  by (subst send_loop.simps)
     (simp add: sendWhatsAppMessage_def payload_def oversized_def Let_def)

lemma send_loop_run:
  assumes "k \<le> length chunks" "\<forall>j<k. net j" "k < length chunks \<longrightarrow> \<not> net k"
    and "i \<le> k" "attempts w = i"
  shows "send_loop net to ms chunks i w =
           (if k < length chunks \<and> oversized chunks k then Inl AxiosError else Inr (),
            \<lparr>attempts = (if k < length chunks then (if \<not> oversized chunks k \<and> k = 0 then k + 2 else k + 1) else k),
             trace = trace w @ concat (map (round_events to ms chunks) [i..<k])
               @ (if k < length chunks then failure_events net to chunks k else [])\<rparr>)"
  using assms(4,5)
proof (induction "k - i" arbitrary: i w)
  case 0
  then have [simp]: "i = k" by simp
  show ?case
  proof (cases "k < length chunks")
    case True
    with assms(3) 0 show ?thesis
      by (cases "k = 0") (simp_all add: send_loop_failure failure_events_def)
  next
    case False
    with 0 show ?thesis
      by (simp add: send_loop_done)
  qed
next
  case (Suc d)
  then have lt: "i < k" and net: "net (attempts w)"
    using assms(2) by auto
  from lt assms(1) have "i < length chunks" by simp
  then have "send_loop net to ms chunks i w =
           send_loop net to ms chunks (Suc i)
             \<lparr>attempts = Suc (attempts w), trace = trace w @ round_events to ms chunks i\<rparr>"
    using net by (rule send_loop_round)
  also have "\<dots> = (if k < length chunks \<and> oversized chunks k then Inl AxiosError else Inr (),
            \<lparr>attempts = (if k < length chunks then (if \<not> oversized chunks k \<and> k = 0 then k + 2 else k + 1) else k),
             trace = (trace w @ round_events to ms chunks i) @ concat (map (round_events to ms chunks) [Suc i..<k])
               @ (if k < length chunks then failure_events net to chunks k else [])\<rparr>)"
    using Suc.hyps(1) [of "Suc i" "\<lparr>attempts = Suc (attempts w), trace = trace w @ round_events to ms chunks i\<rparr>"]
      Suc.hyps(2) Suc.prems lt by simp
  finally show ?case
    using lt by (simp add: upt_conv_Cons)
qed

lemma first_failure:
  "\<exists>k\<le>n. (\<forall>j<k. net j) \<and> (k < n \<longrightarrow> \<not> net k)" for net :: "nat \<Rightarrow> bool"
proof (induction n)
  case 0
  then show ?case by simp
next
  case (Suc n)
  then obtain k where k: "k \<le> n" "\<forall>j<k. net j" "k < n \<longrightarrow> \<not> net k" by blast
  show ?case
  proof (cases "k = n \<and> net n")
    case True
    with k have "\<forall>j<Suc n. net j" by (auto simp: less_Suc_eq)
    then show ?thesis by auto
  next
    case False
    with k have "k \<le> Suc n \<and> (\<forall>j<k. net j) \<and> (k < Suc n \<longrightarrow> \<not> net k)"
      by (auto simp: less_Suc_eq)
    then show ?thesis by blast
  qed
qed

subsection \<open>The guard and whole runs\<close>

lemma trim_empty_iff: "trim s = [] \<longleftrightarrow> (\<forall>c\<in>set s. is_whitespace c)"
proof
  assume "trim s = []"
  then have all: "\<forall>c\<in>set (dropWhile is_whitespace s). is_whitespace c"
    by (simp add: trim_def dropWhile_eq_Nil_conv)
  have "dropWhile is_whitespace s = []"
  proof (rule ccontr)
    assume ne: "dropWhile is_whitespace s \<noteq> []"
    then have "\<not> is_whitespace (hd (dropWhile is_whitespace s))"
      by (rule hd_dropWhile)
    moreover have "hd (dropWhile is_whitespace s) \<in> set (dropWhile is_whitespace s)"
      using ne by simp
    ultimately show False using all by blast
  qed
  then show "\<forall>c\<in>set s. is_whitespace c"
    by (simp add: dropWhile_eq_Nil_conv)
next
  assume "\<forall>c\<in>set s. is_whitespace c"
  then have "dropWhile is_whitespace s = []"
    by (simp only: dropWhile_eq_Nil_conv)
  then show "trim s = []"
    by (simp only: trim_def rev.simps dropWhile.simps)
qed

lemma rejects_string: "rejects (JString s) = Inr (trim s = [])"
  by (auto simp: rejects_def trim_def)

lemma rejects_other: "typeof v \<noteq> TString \<Longrightarrow> rejects v = Inr True"
  by (simp add: rejects_def)

lemma sendSplitMessage_long:
  assumes "trim s \<noteq> []" "MAX_LENGTH < length s"
  shows "sendSplitMessage net to (JString s) delayArg w =
           send_loop net to (case delayArg of None \<Rightarrow> 1500 | Some ms \<Rightarrow> ms) (split_chunks s) 0 w"
  using assms by (simp add: sendSplitMessage_def rejects_string)

lemma sendSplitMessage_short:
  assumes "trim s \<noteq> []" "length s \<le> MAX_LENGTH"
  shows "sendSplitMessage net to (JString s) delayArg w = sendWhatsAppMessage net to s w"
  using assms by (simp add: sendSplitMessage_def rejects_string)

lemma sendSplitMessage_run:
  assumes "trim s \<noteq> []" "MAX_LENGTH < length s"
    and "k \<le> length (split_chunks s)" "\<forall>j<k. net j" "k < length (split_chunks s) \<longrightarrow> \<not> net k"
  shows "sendSplitMessage net to (JString s) delayArg world0 =
           (if k < length (split_chunks s) \<and> oversized (split_chunks s) k then Inl AxiosError else Inr (),
            \<lparr>attempts = (if k < length (split_chunks s)
                         then (if \<not> oversized (split_chunks s) k \<and> k = 0 then k + 2 else k + 1) else k),
             trace = concat (map (round_events to (case delayArg of None \<Rightarrow> 1500 | Some ms \<Rightarrow> ms) (split_chunks s)) [0..<k])
               @ (if k < length (split_chunks s) then failure_events net to (split_chunks s) k else [])\<rparr>)"
proof -
  have "attempts world0 = 0" by (simp add: world0_def)
  from send_loop_run [OF assms(3,4,5) le0 this]
  show ?thesis
    by (simp add: sendSplitMessage_long [OF assms(1,2)] world0_def)
qed

lemma sent_payloads_append: "sent_payloads (es @ fs) = sent_payloads es @ sent_payloads fs"
  by (induction es rule: sent_payloads.induct) simp_all

lemma sent_payloads_rounds:
  "sent_payloads (concat (map (round_events to ms chunks) is)) = map (payload chunks) is"
  by (induction "is") (simp_all add: sent_payloads_append round_events_def)

lemma sent_payloads_failure:
  "sent_payloads (failure_events net to chunks k) =
     payload chunks k # (if \<not> oversized chunks k \<and> k = 0 then [notice] else [])"
  by (cases "k = 0") (simp_all add: failure_events_def)

lemma length_payload: "length (payload chunks i) \<le> MAX_LENGTH"
  by (auto simp: payload_def oversized_def substring_prefix js_lit_def MAX_LENGTH_def)

lemma length_notice: "length notice = 96"
  by (simp add: notice_def js_lit_def)

lemma hd_payload: "hd (payload chunks i) = 0x28"
  by (simp add: payload_def oversized_def substring_prefix js_lit_def messagePart_def MAX_LENGTH_def)

lemma payload_neq_notice: "payload chunks i \<noteq> notice"
proof
  assume "payload chunks i = notice"
  then have "hd (payload chunks i) = hd notice" by simp
  then show False by (simp add: hd_payload notice_def js_lit_def)
qed

lemma notice_fits: "length notice \<le> MAX_LENGTH"
  by (simp add: length_notice MAX_LENGTH_def)

subsection \<open>Texts of one letter, and the length of a rendered number\<close>

lemma length_letters: "length (letters c n) = n"
  by (simp add: letters_def)

lemma letters_nonblank:
  assumes "0 < n" "\<not> is_whitespace (of_char c)"
  shows "\<exists>u\<in>set (letters c n). \<not> is_whitespace u"
  using assms by (simp add: letters_def)

lemma x_not_whitespace: "\<not> is_whitespace (of_char CHR ''x'')"
  by (simp add: is_whitespace_def)

lemma length_split_letters:
  "length (split_chunks (letters c n)) = (n + (CHUNK_SIZE - 1)) div CHUNK_SIZE"
  by (simp add: length_split_chunks length_letters)

lemma nth_split_letters:
  assumes "j < length (split_chunks (letters c n))"
  shows "split_chunks (letters c n) ! j = letters c (min CHUNK_SIZE (n - j * CHUNK_SIZE))"
  using assms by (simp add: nth_split_chunks) (simp add: letters_def)

lemma length_show_nat_le:
  "0 < d \<Longrightarrow> n < 10 ^ d \<Longrightarrow> length (show_nat n) \<le> d"
proof (induction d arbitrary: n)
  case 0
  then show ?case by simp
next
  case (Suc d)
  show ?case
  proof (cases "n < 10")
    case True
    then show ?thesis by (subst show_nat.simps) simp
  next
    case False
    with Suc.prems have "0 < d"
      by (cases d) simp_all
    moreover from Suc.prems have "n div 10 < 10 ^ d"
      by (simp add: less_mult_imp_div_less mult.commute)
    ultimately have "length (show_nat (n div 10)) \<le> d"
      by (rule Suc.IH)
    with False show ?thesis by (subst show_nat.simps) simp
  qed
qed

lemma length_show_nat_pos: "0 < length (show_nat n)"
  by (subst show_nat.simps) simp

lemma length_messagePart:
  "length (messagePart chunks i) =
     4 + length (show_nat (i + 1)) + length (show_nat (length chunks)) + length (chunks ! i)"
  by (simp add: messagePart_def js_lit_def)

lemma upt3: "[0..<3] = [0, 1, 2::nat]"
  by (simp add: upt_rec)

lemma split_9000:
  "split_chunks (letters c 9000) = [letters c 4076, letters c 4076, letters c 848]"
  by (simp add: split_chunks_closed length_letters limits upt3) (simp add: letters_def)

subsection \<open>The payloads of a run\<close>

lemma nonblank_trim: "\<exists>c\<in>set s. \<not> is_whitespace c \<Longrightarrow> trim s \<noteq> []"
  by (simp add: trim_empty_iff)

lemma sent_payloads_run:
  assumes "trim s \<noteq> []" "MAX_LENGTH < length s"
    and "k \<le> length (split_chunks s)" "\<forall>j<k. net j" "k < length (split_chunks s) \<longrightarrow> \<not> net k"
  shows "sent_payloads (trace (snd (sendSplitMessage net to (JString s) delayArg world0))) =
           map (payload (split_chunks s)) [0..<k] @
             (if k < length (split_chunks s)
              then payload (split_chunks s) k #
                     (if \<not> oversized (split_chunks s) k \<and> k = 0 then [notice] else [])
              else [])"
  unfolding sendSplitMessage_run [OF assms]
  by (simp add: sent_payloads_append sent_payloads_rounds sent_payloads_failure)

lemma filter_payloads: "filter (\<lambda>p. p \<noteq> notice) (map (payload chunks) is) = map (payload chunks) is"
  by (induction "is") (simp_all add: payload_neq_notice)

lemma count_notice_payloads: "count_list (map (payload chunks) is) notice = 0"
  by (induction "is") (simp_all add: payload_neq_notice)

subsection \<open>The text of 9000 letters\<close>

lemma oversized_9000:
  "\<not> oversized (split_chunks (letters c 9000)) 0"
  "\<not> oversized (split_chunks (letters c 9000)) (Suc 0)"
  "\<not> oversized (split_chunks (letters c 9000)) 2"
  by (simp_all add: split_9000 oversized_def length_messagePart show_nat.simps length_letters MAX_LENGTH_def)

lemma payload_9000:
  "payload (split_chunks (letters c 9000)) 0 = js_lit ''(1/3) '' @ letters c 4076"
  "payload (split_chunks (letters c 9000)) (Suc 0) = js_lit ''(2/3) '' @ letters c 4076"
  "payload (split_chunks (letters c 9000)) 2 = js_lit ''(3/3) '' @ letters c 848"
  by (simp_all add: payload_def oversized_9000)
     (simp_all add: split_9000 messagePart_def show_nat.simps js_lit_def digit_def)

lemma text_9000:
  "\<exists>u\<in>set (letters CHR ''x'' 9000). \<not> is_whitespace u"
  "MAX_LENGTH < length (letters CHR ''x'' 9000)"
  "length (split_chunks (letters c 9000)) = 3"
proof -
  show "\<exists>u\<in>set (letters CHR ''x'' 9000). \<not> is_whitespace u"
    by (rule letters_nonblank) (simp, rule x_not_whitespace)
qed (simp_all add: length_letters MAX_LENGTH_def split_9000)

subsection \<open>Which chunks can be oversized\<close>

text \<open>
  The prefix of chunk \<open>i\<close> of \<open>n\<close> has \<open>4\<close> code units and the digits of \<open>i + 1\<close> and of \<open>n\<close>. It
  exceeds the 20 reserved code units only from 17 digits on: the first chunk is never
  oversized in a string ECMAScript admits, and no chunk is in a plan of fewer than
  \<open>10^8\<close> chunks.
\<close>

lemma length_chunk_nth:
  "i < length (split_chunks s) \<Longrightarrow> length (split_chunks s ! i) \<le> CHUNK_SIZE"
  by (rule length_chunk_le [of _ s]) simp

lemma long_text_has_chunk:
  assumes "MAX_LENGTH < length s"
  shows "0 < length (split_chunks s)"
proof -
  from assms have "0 * CHUNK_SIZE < length s"
    by (cases s) simp_all
  then show ?thesis
    by (rule chunk_count_tight)
qed

lemma chunk0_not_oversized:
  assumes "MAX_LENGTH < length s" "length s \<le> js_max_string_length"
  shows "\<not> oversized (split_chunks s) 0"
proof -
  have "length s \<le> 10000000000000 * CHUNK_SIZE"
    using assms(2) by (simp add: js_max_string_length_def limits)
  then have "length (split_chunks s) \<le> 10000000000000"
    by (rule chunk_count_least)
  then have "length (split_chunks s) < 10 ^ 14"
    by simp
  then have count: "length (show_nat (length (split_chunks s))) \<le> 14"
    by (intro length_show_nat_le) simp_all
  from assms(1) have "0 < length (split_chunks s)"
    by (rule long_text_has_chunk)
  then have body: "length (split_chunks s ! 0) \<le> CHUNK_SIZE"
    by (rule length_chunk_nth)
  have "length (show_nat (0 + 1)) = 1"
    by (simp add: show_nat.simps)
  with count body show ?thesis
    by (simp add: oversized_def length_messagePart limits)
qed

lemma small_plan_not_oversized:
  assumes "length s \<le> 99999999 * CHUNK_SIZE" "i < length (split_chunks s)"
  shows "\<not> oversized (split_chunks s) i"
proof -
  from assms(1) have n: "length (split_chunks s) \<le> 99999999"
    by (rule chunk_count_least)
  then have "length (split_chunks s) < 10 ^ 8" by simp
  then have total: "length (show_nat (length (split_chunks s))) \<le> 8"
    by (intro length_show_nat_le) simp_all
  from n assms(2) have "i + 1 < 10 ^ 8" by simp
  then have index: "length (show_nat (i + 1)) \<le> 8"
    by (intro length_show_nat_le) simp_all
  from assms(2) have "length (split_chunks s ! i) \<le> CHUNK_SIZE"
    by (rule length_chunk_nth)
  with total index show ?thesis
    by (simp add: oversized_def length_messagePart limits)
qed

lemma sent_reaches:
  assumes "trim s \<noteq> []" "MAX_LENGTH < length s"
    and "m < length (split_chunks s)" "\<forall>j<m. net j"
  shows "m < length (sent_payloads (trace (snd (sendSplitMessage net to (JString s) delayArg world0))))
       \<and> sent_payloads (trace (snd (sendSplitMessage net to (JString s) delayArg world0))) ! m
           = payload (split_chunks s) m"
proof -
  obtain k where k: "k \<le> length (split_chunks s)" "\<forall>j<k. net j"
      "k < length (split_chunks s) \<longrightarrow> \<not> net k"
    using first_failure [of "length (split_chunks s)" net] by blast
  note sent = sent_payloads_run [OF assms(1,2) k, of to delayArg]
  have "m \<le> k"
  proof (rule ccontr)
    assume "\<not> m \<le> k"
    then have "k < m" by simp
    with assms(3,4) k(3) show False by simp
  qed
  show ?thesis
  proof (cases "m < k")
    case True
    then show ?thesis
      by (simp add: sent nth_append)
  next
    case False
    with \<open>m \<le> k\<close> have "k = m" by simp
    with assms(3) show ?thesis
      by (simp add: sent nth_append)
  qed
qed

subsection \<open>The text of 10^8 full chunks\<close>

lemma count_huge: "length (split_chunks (letters c 407600000000)) = 100000000"
  by (simp add: length_split_letters limits)

lemma chunk_huge:
  assumes "j < 100000000"
  shows "split_chunks (letters c 407600000000) ! j = letters c 4076"
proof -
  from assms have "4076 \<le> 407600000000 - j * 4076" by linarith
  then have "min 4076 (407600000000 - j * 4076) = 4076" by simp
  with assms show ?thesis
    by (simp add: nth_split_letters count_huge limits)
qed

lemma oversized_huge_iff:
  assumes "j < 100000000"
  shows "oversized (split_chunks (letters c 407600000000)) j \<longleftrightarrow> 7 < length (show_nat (j + 1))"
proof -
  have "length (show_nat 100000000) = 9"
    by (simp add: show_nat.simps)
  then show ?thesis
    using assms
    by (simp add: oversized_def length_messagePart count_huge chunk_huge length_letters MAX_LENGTH_def)
qed

lemma oversized_huge:
  "oversized (split_chunks (letters c 407600000000)) 9999999"
  "oversized (split_chunks (letters c 407600000000)) 10000000"
  by (simp_all add: oversized_huge_iff show_nat.simps)

lemma payload_huge:
  "payload (split_chunks (letters c 407600000000)) 9999999 =
     js_lit ''(10000000/100000000) '' @ letters c 4072 @ js_lit ''...''"
  "payload (split_chunks (letters c 407600000000)) 10000000 =
     js_lit ''(10000001/100000000) '' @ letters c 4072 @ js_lit ''...''"
  by (simp_all add: payload_def oversized_huge substring_prefix messagePart_def count_huge chunk_huge
        show_nat.simps digit_def js_lit_def MAX_LENGTH_def)
     (simp_all add: letters_def)

lemma text_huge:
  "\<exists>u\<in>set (letters CHR ''x'' 407600000000). \<not> is_whitespace u"
  "MAX_LENGTH < length (letters CHR ''x'' 407600000000)"
  "length (letters CHR ''x'' 407600000000) \<le> js_max_string_length"
proof -
  show "\<exists>u\<in>set (letters CHR ''x'' 407600000000). \<not> is_whitespace u"
    by (rule letters_nonblank) (simp, rule x_not_whitespace)
qed (simp_all add: length_letters MAX_LENGTH_def js_max_string_length_def)

section \<open>The claims\<close>

subsection \<open>Inputs that send nothing\<close>

text \<open>
  Claim C9. A text that is empty or holds only whitespace makes \<^verbatim>\<open>sendSplitMessage\<close>
  return normally with the world untouched: no send is issued, whatever the length of
  the text, the network and the delay argument.
\<close>

theorem blank_text_is_noop:
  assumes "\<forall>c\<in>set s. is_whitespace c"
  shows "sendSplitMessage net to (JString s) delayArg w = (Inr (), w)"
proof -
  from assms have "trim s = []" by (simp only: trim_empty_iff)
  then show ?thesis by (simp add: sendSplitMessage_def rejects_string)
qed

theorem blank_text_is_noop_witness:
  "sendSplitMessage always_ok someone (JString [0x20, 0x09, 0x0A, 0x3000]) None world0 = (Inr (), world0)
   \<and> sendSplitMessage always_ok someone (JString []) None world0 = (Inr (), world0)"
proof -
  have "\<forall>c\<in>set [0x20, 0x09, 0x0A, 0x3000 :: code_unit]. is_whitespace c"
    by (simp add: is_whitespace_def)
  moreover have "\<forall>c\<in>set ([] :: js_string). is_whitespace c"
    by simp
  ultimately show ?thesis
    by (simp only: blank_text_is_noop)
qed

text \<open>
  Claim C10. A \<^verbatim>\<open>longText\<close> that is not a string (undefined, null, a boolean, a number,
  an object) makes \<^verbatim>\<open>sendSplitMessage\<close> return normally with the world untouched: the
  result is \<open>Inr ()\<close>, not the TypeError that \<^verbatim>\<open>trim\<close> on such a value would raise, and
  no send is issued.
\<close>

theorem non_string_is_noop:
  assumes "typeof longText \<noteq> TString"
  shows "sendSplitMessage net to longText delayArg w = (Inr (), w)"
  using assms by (simp add: sendSplitMessage_def rejects_other)

theorem non_string_is_noop_witness:
  "sendSplitMessage always_ok someone JNull None world0 = (Inr (), world0)
   \<and> sendSplitMessage always_ok someone JUndefined None world0 = (Inr (), world0)
   \<and> sendSplitMessage always_ok someone (JNumber 42) None world0 = (Inr (), world0)"
proof -
  have "typeof JNull \<noteq> TString" "typeof JUndefined \<noteq> TString" "typeof (JNumber 42) \<noteq> TString"
    by simp_all
  then show ?thesis
    by (intro conjI non_string_is_noop)
qed

subsection \<open>The short path\<close>

text \<open>
  Claim C4. For a text of at most 4096 code units that holds a code unit that is not
  whitespace, a call issues exactly one send, its payload is the text itself with no
  prefix, and the outcome of the call is the outcome of that send: normal return when
  the send succeeds, the thrown error when it fails.
\<close>

theorem short_text_single_send:
  assumes "\<exists>c\<in>set s. \<not> is_whitespace c" "length s \<le> MAX_LENGTH"
  shows "sendSplitMessage net to (JString s) delayArg world0 =
           (if net 0 then Inr () else Inl AxiosError, \<lparr>attempts = 1, trace = [Send to s (net 0)]\<rparr>)"
proof -
  from assms(1) have "trim s \<noteq> []" by (simp add: trim_empty_iff)
  then show ?thesis
    using assms(2) by (simp add: sendSplitMessage_short sendWhatsAppMessage_def world0_def Let_def)
qed

theorem short_text_single_send_witness:
  "length (letters CHR ''a'' 4096) = MAX_LENGTH
   \<and> sendSplitMessage always_ok someone (JString (letters CHR ''a'' 4096)) None world0 =
       (Inr (), \<lparr>attempts = 1, trace = [Send someone (letters CHR ''a'' 4096) True]\<rparr>)
   \<and> sendSplitMessage (fail_at 0) someone (JString (letters CHR ''a'' 4096)) None world0 =
       (Inl AxiosError, \<lparr>attempts = 1, trace = [Send someone (letters CHR ''a'' 4096) False]\<rparr>)"
proof -
  have a: "\<exists>c\<in>set (letters CHR ''a'' 4096). \<not> is_whitespace c"
    by (simp add: letters_def is_whitespace_def)
  have b: "length (letters CHR ''a'' 4096) \<le> MAX_LENGTH"
    by (simp add: letters_def MAX_LENGTH_def)
  from short_text_single_send [OF a b, of always_ok someone None]
    short_text_single_send [OF a b, of "fail_at 0" someone None]
  show ?thesis
    by (simp add: always_ok_def fail_at_def letters_def MAX_LENGTH_def)
qed

subsection \<open>The size of every payload\<close>

text \<open>
  Claim C3. Whatever the argument, the network and the delay, every payload that a call
  hands to the send primitive (the text on the short path, a prefixed chunk, a truncated
  chunk, the failure notice) has at most 4096 code units.
\<close>

theorem payloads_within_limit:
  "\<forall>p\<in>set (sent_payloads (trace (snd (sendSplitMessage net to longText delayArg world0)))).
     length p \<le> MAX_LENGTH"
proof (cases "typeof longText = TString")
  case False
  then show ?thesis
    by (simp add: sendSplitMessage_def rejects_other world0_def)
next
  case True
  then obtain s where s: "longText = JString s" by (cases longText) simp_all
  show ?thesis
  proof (cases "trim s = []")
    case True
    then show ?thesis
      by (simp add: s sendSplitMessage_def rejects_string world0_def)
  next
    case nonblank: False
    show ?thesis
    proof (cases "length s \<le> MAX_LENGTH")
      case True
      with nonblank show ?thesis
        by (simp add: s sendSplitMessage_short sendWhatsAppMessage_def world0_def Let_def)
    next
      case False
      then have long: "MAX_LENGTH < length s" by simp
      obtain k where k: "k \<le> length (split_chunks s)" "\<forall>j<k. net j"
          "k < length (split_chunks s) \<longrightarrow> \<not> net k"
        using first_failure [of "length (split_chunks s)" net] by blast
      show ?thesis
        unfolding s sendSplitMessage_run [OF nonblank long k]
        by (auto simp: sent_payloads_append sent_payloads_rounds sent_payloads_failure
              length_payload notice_fits)
    qed
  qed
qed

theorem payloads_within_limit_witness:
  "sent_payloads (trace (snd (sendSplitMessage always_ok someone (JString (js_lit ''hello'')) None world0)))
     = [js_lit ''hello'']
   \<and> length (js_lit ''hello'') \<le> MAX_LENGTH"
proof -
  have sent: "sent_payloads (trace (snd (sendSplitMessage always_ok someone (JString (js_lit ''hello'')) None world0)))
     = [js_lit ''hello'']"
    by (simp add: sendSplitMessage_def rejects_def trim_def is_whitespace_def js_lit_def
          sendWhatsAppMessage_def world0_def MAX_LENGTH_def Let_def)
  then have "js_lit ''hello'' \<in> set (sent_payloads (trace (snd
      (sendSplitMessage always_ok someone (JString (js_lit ''hello'')) None world0))))"
    by simp
  with payloads_within_limit have "length (js_lit ''hello'') \<le> MAX_LENGTH"
    by (rule bspec)
  with sent show ?thesis by (rule conjI)
qed

subsection \<open>A chunk whose send fails\<close>

text \<open>
  Claim C1 says that a failed chunk send makes the whole call fail. In the source the
  send of a chunk stands in a \<^verbatim>\<open>try\<close> block whose \<^verbatim>\<open>catch\<close> ends the function by a plain
  \<^verbatim>\<open>return\<close> (line 294). In the run below (9000 letters, three chunks, the second
  send fails) the call therefore returns normally, exactly as the run in which every
  send succeeds.
\<close>

theorem failed_chunk_not_reported:
  "fst (sendSplitMessage (fail_at 1) someone (JString (letters CHR ''x'' 9000)) None world0) = Inr ()
   \<and> trace (snd (sendSplitMessage (fail_at 1) someone (JString (letters CHR ''x'' 9000)) None world0)) =
       [Send someone (js_lit ''(1/3) '' @ letters CHR ''x'' 4076) True,
        Delay 1500,
        Send someone (js_lit ''(2/3) '' @ letters CHR ''x'' 4076) False]
   \<and> fst (sendSplitMessage always_ok someone (JString (letters CHR ''x'' 9000)) None world0) = Inr ()"
proof -
  have a: "(1::nat) \<le> length (split_chunks (letters CHR ''x'' 9000))"
    and b: "\<forall>j<1. fail_at 1 j"
    and c: "1 < length (split_chunks (letters CHR ''x'' 9000)) \<longrightarrow> \<not> fail_at 1 1"
    by (simp_all add: text_9000 fail_at_def)
  note run = sendSplitMessage_run [OF nonblank_trim [OF text_9000(1)] text_9000(2) a b c, of someone None]
  have a': "(3::nat) \<le> length (split_chunks (letters CHR ''x'' 9000))"
    and b': "\<forall>j<3. always_ok j"
    and c': "3 < length (split_chunks (letters CHR ''x'' 9000)) \<longrightarrow> \<not> always_ok 3"
    by (simp_all add: text_9000 always_ok_def)
  note run' = sendSplitMessage_run [OF nonblank_trim [OF text_9000(1)] text_9000(2) a' b' c', of someone None]
  from run run' show ?thesis
    by (simp add: text_9000 oversized_9000 round_events_def failure_events_def payload_9000)
qed

text \<open>
  Claim C1, amended. Let the text hold a code unit that is not whitespace and be longer
  than 4096, and let the send of chunk \<open>k\<close> (0-based) be the first one to fail. Then the
  payloads sent are those of chunks \<open>0\<close> to \<open>k\<close>, each once and in order (no retry, no
  later chunk), followed by the notice when \<open>k = 0\<close>; and the call does not report the
  failure: it returns normally. The one exception is a chunk that was oversized and
  sent truncated, whose send stands outside the \<^verbatim>\<open>try\<close> block: there the error leaves
  the call, and no notice is sent.
\<close>

theorem chunk_failure_outcome:
  assumes "\<exists>c\<in>set s. \<not> is_whitespace c" "MAX_LENGTH < length s"
    and "k < length (split_chunks s)" "\<forall>j<k. net j" "\<not> net k"
  shows "fst (sendSplitMessage net to (JString s) delayArg world0) =
           (if oversized (split_chunks s) k then Inl AxiosError else Inr ())
         \<and> sent_payloads (trace (snd (sendSplitMessage net to (JString s) delayArg world0))) =
             map (payload (split_chunks s)) [0..<Suc k] @
               (if \<not> oversized (split_chunks s) k \<and> k = 0 then [notice] else [])"
proof -
  have k: "k \<le> length (split_chunks s)" "k < length (split_chunks s) \<longrightarrow> \<not> net k"
    using assms(3,5) by simp_all
  note run = sendSplitMessage_run [OF nonblank_trim [OF assms(1)] assms(2) k(1) assms(4) k(2)]
  note sent = sent_payloads_run [OF nonblank_trim [OF assms(1)] assms(2) k(1) assms(4) k(2)]
  have "fst (sendSplitMessage net to (JString s) delayArg world0) =
           (if oversized (split_chunks s) k then Inl AxiosError else Inr ())"
    using assms(3) by (simp add: run)
  moreover have "sent_payloads (trace (snd (sendSplitMessage net to (JString s) delayArg world0))) =
             map (payload (split_chunks s)) [0..<Suc k] @
               (if \<not> oversized (split_chunks s) k \<and> k = 0 then [notice] else [])"
    using assms(3) by (simp add: sent)
  ultimately show ?thesis by (rule conjI)
qed

theorem chunk_failure_outcome_witness:
  "fst (sendSplitMessage (fail_at 1) someone (JString (letters CHR ''x'' 9000)) None world0) = Inr ()
   \<and> sent_payloads (trace (snd (sendSplitMessage (fail_at 1) someone (JString (letters CHR ''x'' 9000)) None world0))) =
       [js_lit ''(1/3) '' @ letters CHR ''x'' 4076, js_lit ''(2/3) '' @ letters CHR ''x'' 4076]"
proof -
  have a: "1 < length (split_chunks (letters CHR ''x'' 9000))"
    and b: "\<forall>j<1. fail_at 1 j"
    and c: "\<not> fail_at 1 1"
    by (simp_all add: text_9000 fail_at_def)
  have upt2: "[0..<Suc (Suc 0)] = [0, Suc 0]" by (simp add: upt_rec)
  from chunk_failure_outcome [OF text_9000(1,2) a b c, of someone None]
  show ?thesis
    by (simp add: oversized_9000 payload_9000 upt2)
qed

text \<open>
  Claim C5. Let the text hold a code unit that is not whitespace and be longer than 4096,
  and let the send of chunk \<open>k\<close> (0-based) be the first one to fail. Then the payloads
  sent, the failure notice apart, are exactly those of chunks \<open>0\<close> to \<open>k\<close>: no chunk
  after \<open>k\<close> is handed to the send primitive.
\<close>

theorem later_chunks_never_sent:
  assumes "\<exists>c\<in>set s. \<not> is_whitespace c" "MAX_LENGTH < length s"
    and "k < length (split_chunks s)" "\<forall>j<k. net j" "\<not> net k"
  shows "filter (\<lambda>p. p \<noteq> notice)
           (sent_payloads (trace (snd (sendSplitMessage net to (JString s) delayArg world0)))) =
         map (payload (split_chunks s)) [0..<Suc k]"
proof -
  have k: "k \<le> length (split_chunks s)" "k < length (split_chunks s) \<longrightarrow> \<not> net k"
    using assms(3,5) by simp_all
  note sent = sent_payloads_run [OF nonblank_trim [OF assms(1)] assms(2) k(1) assms(4) k(2)]
  have "filter (\<lambda>p. p \<noteq> notice) (map (payload (split_chunks s)) [0..<Suc k]) =
          map (payload (split_chunks s)) [0..<Suc k]"
    by (rule filter_payloads)
  then show ?thesis
    using assms(3) by (simp add: sent filter_payloads payload_neq_notice)
qed

theorem later_chunks_never_sent_witness:
  "filter (\<lambda>p. p \<noteq> notice)
     (sent_payloads (trace (snd (sendSplitMessage (fail_at 1) someone (JString (letters CHR ''x'' 9000)) None world0)))) =
       [js_lit ''(1/3) '' @ letters CHR ''x'' 4076, js_lit ''(2/3) '' @ letters CHR ''x'' 4076]
   \<and> length (split_chunks (letters CHR ''x'' 9000)) = 3"
proof -
  have a: "1 < length (split_chunks (letters CHR ''x'' 9000))"
    and b: "\<forall>j<1. fail_at 1 j"
    and c: "\<not> fail_at 1 1"
    by (simp_all add: text_9000 fail_at_def)
  have upt2: "[0..<Suc (Suc 0)] = [0, Suc 0]" by (simp add: upt_rec)
  from later_chunks_never_sent [OF text_9000(1,2) a b c, of someone None]
  show ?thesis
    by (simp add: payload_9000 upt2 text_9000)
qed

subsection \<open>The failure notice\<close>

text \<open>
  Claim C6. Let the text hold a code unit that is not whitespace, be longer than 4096 and
  no longer than \<open>2^53 - 1\<close> code units, the longest string ECMAScript admits. The notice
  is handed to the send primitive exactly once when the send of the first chunk fails,
  and not at all otherwise (every send succeeds, or a later chunk is the first to fail).
  When the first chunk fails the call makes exactly two sends, the chunk and then the
  notice, and returns normally whatever the outcome \<open>net 1\<close> of the notice is.
\<close>

theorem notice_iff_first_chunk_fails:
  assumes "\<exists>c\<in>set s. \<not> is_whitespace c" "MAX_LENGTH < length s" "length s \<le> js_max_string_length"
  shows "count_list (sent_payloads (trace (snd (sendSplitMessage net to (JString s) delayArg world0)))) notice
           = (if net 0 then 0 else 1)
       \<and> (\<not> net 0 \<longrightarrow>
            sendSplitMessage net to (JString s) delayArg world0 =
              (Inr (), \<lparr>attempts = 2,
                        trace = [Send to (messagePart (split_chunks s) 0) False, Send to notice (net 1)]\<rparr>))"
proof -
  note nonblank = nonblank_trim [OF assms(1)]
  note fits = chunk0_not_oversized [OF assms(2,3)]
  from assms(2) have pos: "0 < length (split_chunks s)"
    by (rule long_text_has_chunk)
  show ?thesis
  proof (cases "net 0")
    case True
    obtain k where k: "k \<le> length (split_chunks s)" "\<forall>j<k. net j"
        "k < length (split_chunks s) \<longrightarrow> \<not> net k"
      using first_failure [of "length (split_chunks s)" net] by blast
    from True k(3) pos have "k \<noteq> 0"
      by (cases "k = 0") simp_all
    with True show ?thesis
      by (simp add: sent_payloads_run [OF nonblank assms(2) k] count_notice_payloads
            payload_neq_notice)
  next
    case False
    have k: "0 \<le> length (split_chunks s)" "\<forall>j<0. net j" "0 < length (split_chunks s) \<longrightarrow> \<not> net 0"
      using False by simp_all
    have "count_list (sent_payloads (trace (snd (sendSplitMessage net to (JString s) delayArg world0)))) notice = 1"
      using pos fits by (simp add: sent_payloads_run [OF nonblank assms(2) k] payload_neq_notice)
    moreover have "sendSplitMessage net to (JString s) delayArg world0 =
              (Inr (), \<lparr>attempts = 2,
                        trace = [Send to (messagePart (split_chunks s) 0) False, Send to notice (net 1)]\<rparr>)"
      using pos fits by (simp add: sendSplitMessage_run [OF nonblank assms(2) k] failure_events_def payload_def)
    ultimately show ?thesis
      using False by simp
  qed
qed

theorem notice_iff_first_chunk_fails_witness:
  "sendSplitMessage never_ok someone (JString (letters CHR ''x'' 9000)) None world0 =
     (Inr (), \<lparr>attempts = 2,
               trace = [Send someone (js_lit ''(1/3) '' @ letters CHR ''x'' 4076) False,
                        Send someone notice False]\<rparr>)
   \<and> count_list (sent_payloads (trace (snd
        (sendSplitMessage never_ok someone (JString (letters CHR ''x'' 9000)) None world0)))) notice = 1
   \<and> count_list (sent_payloads (trace (snd
        (sendSplitMessage (fail_at 1) someone (JString (letters CHR ''x'' 9000)) None world0)))) notice = 0"
proof -
  have len: "length (letters CHR ''x'' 9000) \<le> js_max_string_length"
    by (simp add: length_letters js_max_string_length_def)
  have part: "messagePart (split_chunks (letters CHR ''x'' 9000)) 0 = js_lit ''(1/3) '' @ letters CHR ''x'' 4076"
    using payload_9000(1) [of "CHR ''x''"] oversized_9000(1) [of "CHR ''x''"]
    by (simp add: payload_def)
  have differ: "js_lit ''(1/3) '' @ letters CHR ''x'' 4076 \<noteq> notice"
    using payload_neq_notice [of "split_chunks (letters CHR ''x'' 9000)" 0]
    unfolding payload_9000(1) .
  from notice_iff_first_chunk_fails [OF text_9000(1,2) len, of never_ok someone None]
    notice_iff_first_chunk_fails [OF text_9000(1,2) len, of "fail_at 1" someone None]
  show ?thesis
    by (simp add: never_ok_def fail_at_def part differ)
qed

subsection \<open>Oversized chunks\<close>

text \<open>
  Claim C7. Let chunk \<open>k\<close> (0-based) be oversized, that is, let its rendered part exceed
  4096 code units, and let the loop reach it (the sends of the chunks before it
  succeed). Then the payload sent for chunk \<open>k\<close> is the rendered part cut to \<open>4096 - 3\<close>
  code units followed by three dots, and the plan goes on: once that send has succeeded
  and \<open>k\<close> is not the last chunk, the next payload sent is that of chunk \<open>k + 1\<close>.
\<close>

theorem oversized_chunk_truncated:
  assumes "\<exists>c\<in>set s. \<not> is_whitespace c" "MAX_LENGTH < length s"
    and "k < length (split_chunks s)" "oversized (split_chunks s) k" "\<forall>j<k. net j"
  shows "k < length (sent_payloads (trace (snd (sendSplitMessage net to (JString s) delayArg world0))))
       \<and> sent_payloads (trace (snd (sendSplitMessage net to (JString s) delayArg world0))) ! k
           = substring (messagePart (split_chunks s) k) 0 (MAX_LENGTH - 3) @ js_lit ''...''
       \<and> (net k \<and> Suc k < length (split_chunks s) \<longrightarrow>
            Suc k < length (sent_payloads (trace (snd (sendSplitMessage net to (JString s) delayArg world0))))
            \<and> sent_payloads (trace (snd (sendSplitMessage net to (JString s) delayArg world0))) ! Suc k
                = payload (split_chunks s) (Suc k))"
proof -
  note nonblank = nonblank_trim [OF assms(1)]
  from sent_reaches [OF nonblank assms(2,3,5), of to delayArg] assms(4)
  have here: "k < length (sent_payloads (trace (snd (sendSplitMessage net to (JString s) delayArg world0))))
       \<and> sent_payloads (trace (snd (sendSplitMessage net to (JString s) delayArg world0))) ! k
           = substring (messagePart (split_chunks s) k) 0 (MAX_LENGTH - 3) @ js_lit ''...''"
    by (simp add: payload_def)
  have "Suc k < length (sent_payloads (trace (snd (sendSplitMessage net to (JString s) delayArg world0))))
            \<and> sent_payloads (trace (snd (sendSplitMessage net to (JString s) delayArg world0))) ! Suc k
                = payload (split_chunks s) (Suc k)"
    if "net k" "Suc k < length (split_chunks s)"
  proof -
    from assms(5) that(1) have "\<forall>j<Suc k. net j"
      by (simp add: less_Suc_eq)
    with nonblank assms(2) that(2) show ?thesis
      by (rule sent_reaches)
  qed
  with here show ?thesis by blast
qed

theorem oversized_chunk_truncated_witness:
  "oversized (split_chunks (letters CHR ''x'' 407600000000)) 9999999
   \<and> sent_payloads (trace (snd
        (sendSplitMessage always_ok someone (JString (letters CHR ''x'' 407600000000)) None world0))) ! 9999999
       = substring (js_lit ''(10000000/100000000) '' @ letters CHR ''x'' 4076) 0 (MAX_LENGTH - 3) @ js_lit ''...''
   \<and> sent_payloads (trace (snd
        (sendSplitMessage always_ok someone (JString (letters CHR ''x'' 407600000000)) None world0))) ! 10000000
       = js_lit ''(10000001/100000000) '' @ letters CHR ''x'' 4072 @ js_lit ''...''"
proof -
  have k: "9999999 < length (split_chunks (letters CHR ''x'' 407600000000))"
    by (simp add: count_huge)
  have ok: "\<forall>j<9999999. always_ok j"
    by (simp add: always_ok_def)
  have part: "messagePart (split_chunks (letters CHR ''x'' 407600000000)) 9999999
                = js_lit ''(10000000/100000000) '' @ letters CHR ''x'' 4076"
    by (simp add: messagePart_def count_huge chunk_huge show_nat.simps digit_def js_lit_def)
  have this_one: "always_ok 9999999"
    by (simp add: always_ok_def)
  from oversized_chunk_truncated [OF text_huge(1,2) k oversized_huge(1) ok, of someone None]
  show ?thesis
    by (simp add: oversized_huge(1) part count_huge payload_huge(2) this_one)
qed

subsection \<open>Order and pacing\<close>

text \<open>
  Claim C8. Let the text hold a code unit that is not whitespace, be longer than 4096 and
  have at most \<open>99999999 * 4076\<close> code units, a bound above the longest string any
  JavaScript engine builds (V8 stops at \<open>2^29 - 24\<close> code units). Let \<open>k\<close> be the number of
  chunk sends that succeed before the first failure (\<open>k\<close> is the number of chunks when
  none fails). The trace of the call is then: for each chunk \<open>0\<close> to \<open>k - 1\<close> in ascending
  order its successful send of the rendered part, followed by one delay of
  \<open>delayBetweenMessages\<close> (1500 by default) when the chunk is not the last; then, when a
  send failed, that failed send and, for the first chunk, the notice. So the sends are
  in ascending chunk order, every successful send of a chunk that is not the last is
  followed by the delay before the next send, and no delay follows the last chunk.
\<close>

theorem sends_in_order_with_pacing:
  assumes "\<exists>c\<in>set s. \<not> is_whitespace c" "MAX_LENGTH < length s"
    and "length s \<le> 99999999 * CHUNK_SIZE"
    and "k \<le> length (split_chunks s)" "\<forall>j<k. net j" "k < length (split_chunks s) \<longrightarrow> \<not> net k"
  shows "trace (snd (sendSplitMessage net to (JString s) delayArg world0)) =
           concat (map (\<lambda>i. Send to (messagePart (split_chunks s) i) True #
                          (if i < length (split_chunks s) - 1
                           then [Delay (case delayArg of None \<Rightarrow> 1500 | Some ms \<Rightarrow> ms)] else []))
                    [0..<k])
           @ (if k < length (split_chunks s)
              then Send to (messagePart (split_chunks s) k) False #
                     (if k = 0 then [Send to notice (net 1)] else [])
              else [])"
proof -
  let ?ms = "case delayArg of None \<Rightarrow> 1500 | Some ms \<Rightarrow> ms"
  have fits: "\<not> oversized (split_chunks s) i" if "i < length (split_chunks s)" for i
    using assms(3) that by (rule small_plan_not_oversized)
  have rounds: "map (round_events to ?ms (split_chunks s)) [0..<k] =
          map (\<lambda>i. Send to (messagePart (split_chunks s) i) True #
                          (if i < length (split_chunks s) - 1 then [Delay ?ms] else []))
            [0..<k]"
  proof (rule map_cong [OF refl])
    fix i assume "i \<in> set [0..<k]"
    with assms(4) have "i < length (split_chunks s)" by simp
    then have "\<not> oversized (split_chunks s) i" by (rule fits)
    then show "round_events to ?ms (split_chunks s) i =
        Send to (messagePart (split_chunks s) i) True #
          (if i < length (split_chunks s) - 1 then [Delay ?ms] else [])"
      by (simp add: round_events_def payload_def)
  qed
  have failure: "failure_events net to (split_chunks s) k =
          Send to (messagePart (split_chunks s) k) False #
            (if k = 0 then [Send to notice (net 1)] else [])"
    if "k < length (split_chunks s)"
    using fits [OF that] by (simp add: failure_events_def payload_def)
  have "trace (snd (sendSplitMessage net to (JString s) delayArg world0)) =
          concat (map (round_events to ?ms (split_chunks s)) [0..<k])
            @ (if k < length (split_chunks s) then failure_events net to (split_chunks s) k else [])"
    by (simp add: sendSplitMessage_run [OF nonblank_trim [OF assms(1)] assms(2,4,5,6)])
  then show ?thesis
    by (simp only: rounds) (simp add: failure)
qed

theorem sends_in_order_with_pacing_witness:
  "trace (snd (sendSplitMessage always_ok someone (JString (letters CHR ''x'' 9000)) None world0)) =
     [Send someone (js_lit ''(1/3) '' @ letters CHR ''x'' 4076) True,
      Delay 1500,
      Send someone (js_lit ''(2/3) '' @ letters CHR ''x'' 4076) True,
      Delay 1500,
      Send someone (js_lit ''(3/3) '' @ letters CHR ''x'' 848) True]"
proof -
  have small: "length (letters CHR ''x'' 9000) \<le> 99999999 * CHUNK_SIZE"
    by (simp add: length_letters limits)
  have a: "3 \<le> length (split_chunks (letters CHR ''x'' 9000))"
    and b: "\<forall>j<3. always_ok j"
    and c: "3 < length (split_chunks (letters CHR ''x'' 9000)) \<longrightarrow> \<not> always_ok 3"
    by (simp_all add: text_9000 always_ok_def)
  have parts:
    "messagePart (split_chunks (letters CHR ''x'' 9000)) 0 = js_lit ''(1/3) '' @ letters CHR ''x'' 4076"
    "messagePart (split_chunks (letters CHR ''x'' 9000)) (Suc 0) = js_lit ''(2/3) '' @ letters CHR ''x'' 4076"
    "messagePart (split_chunks (letters CHR ''x'' 9000)) 2 = js_lit ''(3/3) '' @ letters CHR ''x'' 848"
    using payload_9000 [of "CHR ''x''"] oversized_9000 [of "CHR ''x''"]
    by (simp_all add: payload_def)
  from sends_in_order_with_pacing [OF text_9000(1,2) small a b c, of someone None]
  show ?thesis
    by (simp add: text_9000 upt3 parts)
qed

subsection \<open>The plan\<close>

text \<open>
  Claim C2 says that the number of chunks is the least one for which every chunk, with
  its prefix, fits 4096 code units. The loop cuts at every 4076 code units whatever the
  prefix needs, so for 8153 letters it makes three chunks, while the two bodies of 4077
  and 4076 letters, with their prefixes of 6 code units, fit as well.
\<close>

theorem fewer_chunks_would_fit:
  "length (split_chunks (letters CHR ''x'' 8153)) = 3
   \<and> concat [letters CHR ''x'' 4077, letters CHR ''x'' 4076] = letters CHR ''x'' 8153
   \<and> plan_fits [letters CHR ''x'' 4077, letters CHR ''x'' 4076]"
proof -
  have "length (split_chunks (letters CHR ''x'' 8153)) = 3"
    by (simp add: length_split_letters limits)
  moreover have "concat [letters CHR ''x'' 4077, letters CHR ''x'' 4076] = letters CHR ''x'' 8153"
    by (simp add: letters_def replicate_add [symmetric])
  moreover have "plan_fits [letters CHR ''x'' 4077, letters CHR ''x'' 4076]"
    by (simp add: plan_fits_def length_messagePart show_nat.simps length_letters MAX_LENGTH_def)
  ultimately show ?thesis by simp
qed

text \<open>
  Claim C2, amended. For every text longer than 4096 the chunks of the plan, concatenated
  in order, give back the text; their number is the length divided by \<open>4096 - 20\<close>,
  rounded up; every chunk has at most 4076 code units, and no list of bodies of at most
  4076 code units each that concatenates to the text is shorter than the plan. When the
  text holds a code unit that is not whitespace, has fewer than \<open>10^8\<close> chunks and every
  send succeeds, the payloads sent are the chunks of the plan, each behind its prefix.
  For 9000 letters the plan has 3 chunks, the first body has 4076 code units and its
  rendered part, the prefix \<^verbatim>\<open>(1/3) \<close> and the body, has 4082.
\<close>

theorem chunking_round_trip:
  "(MAX_LENGTH < length s \<longrightarrow>
      concat (split_chunks s) = s
    \<and> length (split_chunks s) = (length s + (CHUNK_SIZE - 1)) div CHUNK_SIZE
    \<and> (length (split_chunks s) - 1) * CHUNK_SIZE < length s
    \<and> length s \<le> length (split_chunks s) * CHUNK_SIZE
    \<and> (\<forall>b\<in>set (split_chunks s). length b \<le> CHUNK_SIZE)
    \<and> (\<forall>bodies. concat bodies = s \<and> (\<forall>b\<in>set bodies. length b \<le> CHUNK_SIZE)
          \<longrightarrow> length (split_chunks s) \<le> length bodies)
    \<and> ((\<exists>c\<in>set s. \<not> is_whitespace c) \<and> length s \<le> 99999999 * CHUNK_SIZE \<and> (\<forall>j. net j)
          \<longrightarrow> sent_payloads (trace (snd (sendSplitMessage net to (JString s) delayArg world0)))
                = map (messagePart (split_chunks s)) [0..<length (split_chunks s)]))
   \<and> length (split_chunks (letters CHR ''x'' 9000)) = 3
   \<and> length (split_chunks (letters CHR ''x'' 9000) ! 0) = 4076
   \<and> messagePart (split_chunks (letters CHR ''x'' 9000)) 0
        = js_lit ''(1/3) '' @ split_chunks (letters CHR ''x'' 9000) ! 0
   \<and> length (messagePart (split_chunks (letters CHR ''x'' 9000)) 0) = 4082"
proof -
  have general: "concat (split_chunks s) = s
    \<and> length (split_chunks s) = (length s + (CHUNK_SIZE - 1)) div CHUNK_SIZE
    \<and> (length (split_chunks s) - 1) * CHUNK_SIZE < length s
    \<and> length s \<le> length (split_chunks s) * CHUNK_SIZE
    \<and> (\<forall>b\<in>set (split_chunks s). length b \<le> CHUNK_SIZE)
    \<and> (\<forall>bodies. concat bodies = s \<and> (\<forall>b\<in>set bodies. length b \<le> CHUNK_SIZE)
          \<longrightarrow> length (split_chunks s) \<le> length bodies)
    \<and> ((\<exists>c\<in>set s. \<not> is_whitespace c) \<and> length s \<le> 99999999 * CHUNK_SIZE \<and> (\<forall>j. net j)
          \<longrightarrow> sent_payloads (trace (snd (sendSplitMessage net to (JString s) delayArg world0)))
                = map (messagePart (split_chunks s)) [0..<length (split_chunks s)])"
    if long: "MAX_LENGTH < length s"
  proof (intro conjI allI impI ballI)
    show "concat (split_chunks s) = s"
      by (rule concat_split_chunks)
    show "length (split_chunks s) = (length s + (CHUNK_SIZE - 1)) div CHUNK_SIZE"
      by (rule length_split_chunks)
    show "length s \<le> length (split_chunks s) * CHUNK_SIZE"
      by (rule chunk_count_covers)
    show "(length (split_chunks s) - 1) * CHUNK_SIZE < length s"
    proof (rule ccontr)
      assume "\<not> (length (split_chunks s) - 1) * CHUNK_SIZE < length s"
      then have "length s \<le> (length (split_chunks s) - 1) * CHUNK_SIZE" by simp
      then have "length (split_chunks s) \<le> length (split_chunks s) - 1"
        by (rule chunk_count_least)
      with long_text_has_chunk [OF long] show False by linarith
    qed
    show "length b \<le> CHUNK_SIZE" if "b \<in> set (split_chunks s)" for b
      using that by (rule length_chunk_le)
    show "length (split_chunks s) \<le> length bodies"
      if "concat bodies = s \<and> (\<forall>b\<in>set bodies. length b \<le> CHUNK_SIZE)" for bodies
    proof -
      from that have "length (concat bodies) \<le> length bodies * CHUNK_SIZE"
        by (intro length_concat_le) simp
      with that have "length s \<le> length bodies * CHUNK_SIZE" by simp
      then show ?thesis by (rule chunk_count_least)
    qed
    show "sent_payloads (trace (snd (sendSplitMessage net to (JString s) delayArg world0)))
                = map (messagePart (split_chunks s)) [0..<length (split_chunks s)]"
      if *: "(\<exists>c\<in>set s. \<not> is_whitespace c) \<and> length s \<le> 99999999 * CHUNK_SIZE \<and> (\<forall>j. net j)"
    proof -
      from * have nonblank: "trim s \<noteq> []" by (simp add: trim_empty_iff)
      have k: "length (split_chunks s) \<le> length (split_chunks s)"
        "\<forall>j<length (split_chunks s). net j"
        "length (split_chunks s) < length (split_chunks s) \<longrightarrow> \<not> net (length (split_chunks s))"
        using * by simp_all
      have "payload (split_chunks s) i = messagePart (split_chunks s) i"
        if "i < length (split_chunks s)" for i
        using small_plan_not_oversized [of s i] * that by (simp add: payload_def)
      then have "map (payload (split_chunks s)) [0..<length (split_chunks s)]
               = map (messagePart (split_chunks s)) [0..<length (split_chunks s)]"
        by simp
      then show ?thesis
        by (simp add: sent_payloads_run [OF nonblank long k])
    qed
  qed
  have "length (split_chunks (letters CHR ''x'' 9000)) = 3"
    by (rule text_9000)
  moreover have "length (split_chunks (letters CHR ''x'' 9000) ! 0) = 4076"
    by (simp add: split_9000 length_letters)
  moreover have "messagePart (split_chunks (letters CHR ''x'' 9000)) 0
        = js_lit ''(1/3) '' @ split_chunks (letters CHR ''x'' 9000) ! 0"
    by (simp add: messagePart_def split_9000 show_nat.simps digit_def js_lit_def)
  moreover have "length (messagePart (split_chunks (letters CHR ''x'' 9000)) 0) = 4082"
    by (simp add: length_messagePart split_9000 show_nat.simps length_letters)
  ultimately show ?thesis
    using general by blast
qed

theorem chunking_round_trip_witness:
  "length (letters CHR ''x'' 9000) = 9000
   \<and> concat (split_chunks (letters CHR ''x'' 9000)) = letters CHR ''x'' 9000
   \<and> length (split_chunks (letters CHR ''x'' 9000)) = 3
   \<and> sent_payloads (trace (snd (sendSplitMessage always_ok someone (JString (letters CHR ''x'' 9000)) None world0)))
        = [js_lit ''(1/3) '' @ letters CHR ''x'' 4076,
           js_lit ''(2/3) '' @ letters CHR ''x'' 4076,
           js_lit ''(3/3) '' @ letters CHR ''x'' 848]"
proof -
  have small: "length (letters CHR ''x'' 9000) \<le> 99999999 * CHUNK_SIZE"
    by (simp add: length_letters limits)
  have ok: "\<forall>j. always_ok j"
    by (simp add: always_ok_def)
  have parts: "map (messagePart (split_chunks (letters CHR ''x'' 9000))) [0..<3]
      = [js_lit ''(1/3) '' @ letters CHR ''x'' 4076,
           js_lit ''(2/3) '' @ letters CHR ''x'' 4076,
           js_lit ''(3/3) '' @ letters CHR ''x'' 848]"
    by (simp add: upt3 split_9000 messagePart_def show_nat.simps digit_def js_lit_def)
  note general = chunking_round_trip [of "letters CHR ''x'' 9000" always_ok someone None,
      THEN conjunct1, THEN mp, OF text_9000(2)]
  from general have whole: "concat (split_chunks (letters CHR ''x'' 9000)) = letters CHR ''x'' 9000"
    by (rule conjunct1)
  from general text_9000(1) small ok
  have "sent_payloads (trace (snd (sendSplitMessage always_ok someone (JString (letters CHR ''x'' 9000)) None world0)))
        = map (messagePart (split_chunks (letters CHR ''x'' 9000)))
            [0..<length (split_chunks (letters CHR ''x'' 9000))]"
    by blast
  then show ?thesis
    by (simp add: whole text_9000(3) parts length_letters)
qed

end
